theory Spec2Isabelle
  imports Main "HOL-Library.AList"
begin

section \<open>Python strings\<close>

text \<open>
  A Python \<open>str\<close> is modelled as a \<open>string\<close>; a \<open>char\<close> stands for a code point below
  256. The functions below follow \<open>str.isspace\<close>, \<open>str.strip\<close>, \<open>str.lower\<close>, the
  \<open>in\<close> operator, \<open>str.startswith\<close>, \<open>str.endswith\<close>, \<open>str.split(sep, 1)\<close> and
  \<open>str.split(None, 1)\<close> on such strings.
\<close>

definition isspace :: "char \<Rightarrow> bool" where
  "isspace c = (c \<in> set [CHR 0x09, CHR 0x0A, CHR 0x0B, CHR 0x0C, CHR 0x0D,
                           CHR 0x1C, CHR 0x1D, CHR 0x1E, CHR 0x1F, CHR 0x20,
                           CHR 0x85, CHR 0xA0])"

definition strip :: "string \<Rightarrow> string" where
  "strip s = rev (dropWhile isspace (rev (dropWhile isspace s)))"

definition lower_char :: "char \<Rightarrow> char" where
  "lower_char c =
     (let n = (of_char c :: nat)
      in if (65 \<le> n \<and> n \<le> 90) \<or> (192 \<le> n \<and> n \<le> 222 \<and> n \<noteq> 215)
         then char_of (n + 32) else c)"

definition lower :: "string \<Rightarrow> string" where
  "lower s = map lower_char s"

definition startswith :: "string \<Rightarrow> string \<Rightarrow> bool" where
  "startswith s p = (take (length p) s = p)"

definition endswith :: "string \<Rightarrow> string \<Rightarrow> bool" where
  "endswith s p = (length p \<le> length s \<and> drop (length s - length p) s = p)"

text \<open>\<open>py_in sub s\<close> is Python's \<open>sub in s\<close>.\<close>

fun py_in :: "string \<Rightarrow> string \<Rightarrow> bool" where
  "py_in sub [] = (sub = [])"
| "py_in sub (c # cs) = (startswith (c # cs) sub \<or> py_in sub cs)"

text \<open>
  \<open>split1 sep s\<close> is \<open>s.split(sep, 1)\<close> for a non-empty separator: the text before the
  first occurrence of \<open>sep\<close> and the text after it, or \<open>s\<close> alone when \<open>sep\<close> does not
  occur.
\<close>

fun split1 :: "string \<Rightarrow> string \<Rightarrow> string list" where
  "split1 sep [] = [[]]"
| "split1 sep (c # cs) =
     (if startswith (c # cs) sep then [[], drop (length sep) (c # cs)]
      else (case split1 sep cs of
              [a, b] \<Rightarrow> [c # a, b]
            | _ \<Rightarrow> [c # cs]))"

text \<open>
  \<open>split_ws1 s\<close> is \<open>s.split(None, 1)\<close>: leading whitespace is skipped, the first token
  ends at the next whitespace, and the rest starts after that run of whitespace.
\<close>

definition split_ws1 :: "string \<Rightarrow> string list" where
  "split_ws1 s =
     (let s1 = dropWhile isspace s
      in if s1 = [] then []
         else (let tok = takeWhile (\<lambda>c. \<not> isspace c) s1;
                   rest = dropWhile isspace (dropWhile (\<lambda>c. \<not> isspace c) s1)
               in if rest = [] then [tok] else [tok, rest]))"

section \<open>Paths (\<open>os.path\<close> on POSIX)\<close>

definition isabs :: "string \<Rightarrow> bool" where
  "isabs p = startswith p ''/''"

definition join :: "string \<Rightarrow> string \<Rightarrow> string" where
  "join a b =
     (if startswith b ''/'' then b
      else if a = [] \<or> endswith a ''/'' then a @ b
      else a @ ''/'' @ b)"

definition dirname :: "string \<Rightarrow> string" where
  "dirname p =
     (let head = rev (dropWhile (\<lambda>c. c \<noteq> CHR ''/'') (rev p))
      in if head \<noteq> [] \<and> head \<noteq> replicate (length head) CHR ''/''
         then rev (dropWhile (\<lambda>c. c = CHR ''/'') (rev head))
         else head)"

text \<open>\<open>split_sep s\<close> is \<open>s.split('/')\<close>.\<close>

fun split_sep :: "string \<Rightarrow> string list" where
  "split_sep [] = [[]]"
| "split_sep (c # cs) =
     (if c = CHR ''/'' then [] # split_sep cs
      else (case split_sep cs of
              [] \<Rightarrow> [[c]]
            | x # xs \<Rightarrow> (c # x) # xs))"

text \<open>\<open>join_sep comps\<close> is \<open>'/'.join(comps)\<close>.\<close>

fun join_sep :: "string list \<Rightarrow> string" where
  "join_sep [] = []"
| "join_sep [x] = x"
| "join_sep (x # y # ys) = x @ ''/'' @ join_sep (y # ys)"

text \<open>
  One round of the loop of \<open>normpath\<close>: \<open>new_comps\<close> after the component \<open>cmp\<close>;
  \<open>initial\<close> tells whether the path starts with a slash.
\<close>

definition norm_step :: "bool \<Rightarrow> string list \<Rightarrow> string \<Rightarrow> string list" where
  "norm_step initial new_comps cmp =
     (if cmp = [] \<or> cmp = ''.'' then new_comps
      else if cmp \<noteq> ''..'' \<or> (\<not> initial \<and> new_comps = [])
              \<or> (new_comps \<noteq> [] \<and> last new_comps = ''..'')
           then new_comps @ [cmp]
      else if new_comps \<noteq> [] then butlast new_comps
      else new_comps)"

definition normpath :: "string \<Rightarrow> string" where
  "normpath path =
     (if path = [] then ''.''
      else (let initial = startswith path ''/'';
                slashes = (if initial \<and> startswith path ''//'' \<and> \<not> startswith path ''///''
                           then 2 else if initial then 1 else 0);
                comps = foldl (norm_step initial) [] (split_sep path);
                p = replicate slashes CHR ''/'' @ join_sep comps
            in if p = [] then ''.'' else p))"

text \<open>\<open>abspath cwd p\<close> is \<open>os.path.abspath(p)\<close> when \<open>os.getcwd()\<close> is \<open>cwd\<close>.\<close>

definition abspath :: "string \<Rightarrow> string \<Rightarrow> string" where
  "abspath cwd path = normpath (if \<not> isabs path then join cwd path else path)"

section \<open>Errors, dictionaries, JSON values and the file system\<close>

datatype py_error = OSError | ValueError | AttributeError

text \<open>
  A \<open>dict\<close> from strings to caption lists is an association list with distinct keys in
  insertion order: \<open>d[k] = v\<close> is \<open>AList.update k v d\<close>, which replaces the value of a
  present key in place and appends an absent one.
\<close>

type_synonym caption_mapping = "(string \<times> string list) list"

text \<open>\<open>dict_get d k\<close> is \<open>d.get(k, [])\<close>.\<close>

definition dict_get :: "caption_mapping \<Rightarrow> string \<Rightarrow> string list" where
  "dict_get d k = (case map_of d k of None \<Rightarrow> [] | Some v \<Rightarrow> v)"

text \<open>\<open>setdefault_append k c d\<close> is \<open>d.setdefault(k, []).append(c)\<close>.\<close>

definition setdefault_append :: "string \<Rightarrow> string \<Rightarrow> caption_mapping \<Rightarrow> caption_mapping" where
  "setdefault_append k c d = AList.update k (dict_get d k @ [c]) d"

text \<open>\<open>dict_update d other\<close> is \<open>d\<close> after \<open>d.update(other)\<close>.\<close>

definition dict_update :: "caption_mapping \<Rightarrow> caption_mapping \<Rightarrow> caption_mapping" where
  "dict_update d other = fold (\<lambda>(k, v). AList.update k v) other d"

text \<open>
  The value \<open>json.load\<close> returns. An object is the list of its members, each key once.
  A float is observed by the code only through its truth value and its printed form, so
  \<open>JFloat nonzero text\<close> carries these two.
\<close>

datatype json =
    JNull
  | JBool bool
  | JInt int
  | JFloat bool string
  | JStr string
  | JArr "json list"
  | JObj "(string \<times> json) list"

text \<open>The truth value of a JSON value in a Python condition.\<close>

fun truthy :: "json \<Rightarrow> bool" where
  "truthy JNull = False"
| "truthy (JBool b) = b"
| "truthy (JInt i) = (i \<noteq> 0)"
| "truthy (JFloat nonzero t) = nonzero"
| "truthy (JStr s) = (s \<noteq> [])"
| "truthy (JArr xs) = (xs \<noteq> [])"
| "truthy (JObj kvs) = (kvs \<noteq> [])"

text \<open>
  What reading a text file line by line gives: \<open>Lines ls\<close> when the file was read to its
  end, \<open>Failed ls\<close> when an exception was raised after the lines \<open>ls\<close> (opening a missing
  file is \<open>Failed []\<close>).
\<close>

datatype file_read = Lines "string list" | Failed "string list"

fun lines_of :: "file_read \<Rightarrow> string list" where
  "lines_of (Lines ls) = ls"
| "lines_of (Failed ls) = ls"

text \<open>
  A directory as \<open>os.scandir\<close> lists it: its sub-directories in listing order, each with
  its own tree (\<open>None\<close> for one that is not entered or cannot be listed), and its other
  entries.
\<close>

datatype dirtree = Dir "(string \<times> dirtree option) list" "string list"

text \<open>
  The environment of a call:
  \<^item> \<open>cwd\<close>: the working directory, as \<open>os.getcwd()\<close> returns it;
  \<^item> \<open>scandir p\<close>: the directory tree \<open>os.scandir\<close> finds at \<open>p\<close>, \<open>None\<close> when listing
    \<open>p\<close> raises an \<open>OSError\<close> (\<open>p\<close> is missing, not a directory or unreadable);
  \<^item> \<open>path_exists p\<close>: \<open>Path(p).exists()\<close>, the test of the two parsers;
  \<^item> \<open>os_path_exists p\<close>: \<open>os.path.exists(p)\<close>, the test of the collector (the two differ,
    for one on the empty string and on a regular file named with a trailing slash);
  \<^item> \<open>path_isdir p\<close>: \<open>os.path.isdir(p)\<close>;
  \<^item> \<open>read_lines p\<close>: the lines of the text file \<open>p\<close>;
  \<^item> \<open>json_load p\<close>: the value \<open>json.load\<close> gives for the file \<open>p\<close>, \<open>None\<close> when the file
    cannot be opened or is not valid JSON;
  \<^item> \<open>repr c\<close>: \<open>str(c)\<close> for a JSON value \<open>c\<close> that is not a string.

  What the code prints is left out.
\<close>

record env =
  cwd :: string
  scandir :: "string \<Rightarrow> dirtree option"
  path_exists :: "string \<Rightarrow> bool"
  os_path_exists :: "string \<Rightarrow> bool"
  path_isdir :: "string \<Rightarrow> bool"
  read_lines :: "string \<Rightarrow> file_read"
  json_load :: "string \<Rightarrow> json option"
  repr :: "json \<Rightarrow> string"

text \<open>
  The triples \<open>os.walk\<close> yields, top-down, for a directory \<open>t\<close> with the tree found there.
  With the default \<open>onerror=None\<close> the \<open>OSError\<close> of a directory that cannot be listed is
  ignored: the directory yields nothing.
\<close>

fun walk :: "string \<Rightarrow> dirtree option \<Rightarrow> (string \<times> string list \<times> string list) list" where
  "walk t None = []"
| "walk t (Some (Dir ds nondirs)) =
     (t, map fst ds, nondirs) # concat (map (\<lambda>(d, sub). walk (join t d) sub) ds)"

text \<open>
  \<open>os.walk(top)\<close> as the loop of the collector consumes it. A path with a NUL character
  is no path name: \<open>os.scandir\<close> refuses it with a \<open>ValueError\<close>, which is no \<open>OSError\<close> and
  is not ignored; it leaves the generator at its first step. The names a directory lists
  have no NUL character, so only \<open>top\<close> can be refused.
\<close>

definition has_nul :: "string \<Rightarrow> bool" where
  "has_nul p = (CHR 0x00 \<in> set p)"

definition os_walk ::
  "'a env_scheme \<Rightarrow> string \<Rightarrow> py_error + (string \<times> string list \<times> string list) list" where
  "os_walk e top_dir =
     (if has_nul top_dir then Inl ValueError else Inr (walk top_dir (scandir e top_dir)))"

section \<open>\<open>JSONCaptionParser.extract\<close>\<close>

text \<open>\<open>py_str e c\<close> is \<open>str(c)\<close>.\<close>

definition py_str :: "'a env_scheme \<Rightarrow> json \<Rightarrow> string" where
  "py_str e c = (case c of JStr s \<Rightarrow> s | _ \<Rightarrow> repr e c)"

text \<open>\<open>x.strip()\<close> on a JSON value: only a string has the method.\<close>

definition strip_method :: "json \<Rightarrow> py_error + string" where
  "strip_method x = (case x of JStr s \<Rightarrow> Inr (strip s) | _ \<Rightarrow> Inl AttributeError)"

definition formatted :: "'a env_scheme \<Rightarrow> json \<Rightarrow> string list" where
  "formatted e captions_raw =
     (let cs = (case captions_raw of JArr xs \<Rightarrow> xs | c \<Rightarrow> [c])
      in map (\<lambda>c. strip (py_str e c) @ '' '') (filter truthy cs))"

text \<open>
  The loop over the items of the array. An exception leaves the loop; the handler of
  \<open>extract\<close> catches it and the mapping built so far is returned.
\<close>

fun json_items ::
  "'a env_scheme \<Rightarrow> string \<Rightarrow> bool \<Rightarrow> json list \<Rightarrow> caption_mapping \<Rightarrow> caption_mapping" where
  "json_items e images_path validate_images [] caption_mapping = caption_mapping"
| "json_items e images_path validate_images (item # items) caption_mapping =
     (case item of
        JObj kvs \<Rightarrow>
          (case (map_of kvs ''filename'', map_of kvs ''caption'') of
             (Some filename, Some captions_raw) \<Rightarrow>
               (case strip_method filename of
                  Inl err \<Rightarrow> caption_mapping
                | Inr name \<Rightarrow>
                    (let img_name_abs = join images_path name;
                         fmt = formatted e captions_raw
                     in json_items e images_path validate_images items
                          (if (\<not> validate_images \<or> path_exists e img_name_abs) \<and> fmt \<noteq> []
                           then AList.update img_name_abs fmt caption_mapping
                           else caption_mapping)))
           | _ \<Rightarrow> json_items e images_path validate_images items caption_mapping)
      | _ \<Rightarrow> json_items e images_path validate_images items caption_mapping)"

definition JSONCaptionParser_extract ::
  "'a env_scheme \<Rightarrow> string \<Rightarrow> string \<Rightarrow> bool \<Rightarrow> caption_mapping" where
  "JSONCaptionParser_extract e file_path images_path validate_images =
     (case json_load e file_path of
        Some (JArr caption_data) \<Rightarrow> json_items e images_path validate_images caption_data []
      | _ \<Rightarrow> [])"

section \<open>\<open>TXTCaptionParser.extract\<close>\<close>

text \<open>The delimiter of a line, first match first; \<open>None\<close> when the line has none.\<close>

definition txt_parts :: "string \<Rightarrow> string list option" where
  "txt_parts line =
     (if py_in ''   '' line then Some (split1 ''   '' line)
      else if py_in '' #'' line then Some (split1 '' #'' line)
      else if py_in ''#'' line then Some (split1 ''#'' line)
      else None)"

text \<open>One round of the loop over the lines of the file.\<close>

definition txt_line ::
  "'a env_scheme \<Rightarrow> string \<Rightarrow> bool \<Rightarrow> string \<Rightarrow> caption_mapping \<Rightarrow> caption_mapping" where
  "txt_line e images_path validate_images raw caption_mapping =
     (let line = strip raw
      in if line = [] then caption_mapping
         else (case txt_parts line of
                 None \<Rightarrow> caption_mapping
               | Some parts \<Rightarrow>
                   if length parts < 2 then caption_mapping
                   else (let img_name = strip (parts ! 0);
                             caption = strip (parts ! 1)
                         in if img_name = [] \<or> caption = [] then caption_mapping
                            else (let img_path_abs = join images_path img_name
                                  in if \<not> validate_images \<or> path_exists e img_path_abs
                                     then setdefault_append img_path_abs caption caption_mapping
                                     else caption_mapping))))"

definition TXTCaptionParser_extract ::
  "'a env_scheme \<Rightarrow> string \<Rightarrow> string \<Rightarrow> bool \<Rightarrow> caption_mapping" where
  "TXTCaptionParser_extract e file_path images_path validate_images =
     fold (txt_line e images_path validate_images) (lines_of (read_lines e file_path)) []"

section \<open>\<open>collect_all_caption_data\<close>\<close>

text \<open>\<open>imgname, cap = parts\<close>: a list of any other length than two raises.\<close>

fun unpack2 :: "string list \<Rightarrow> py_error + string \<times> string" where
  "unpack2 [a, b] = Inr (a, b)"
| "unpack2 parts = Inl ValueError"

text \<open>
  The name and the caption of a line of \<open>caption.txt\<close> before trimming: \<open>None\<close> when
  the line is passed over, \<open>Some (Inl err)\<close> when the statement raises.
\<close>

definition caption_pair :: "string \<Rightarrow> (py_error + string \<times> string) option" where
  "caption_pair ln =
     (if py_in ''   '' ln then Some (unpack2 (split1 ''   '' ln))
      else if py_in '' #'' ln then Some (unpack2 (split1 '' #'' ln))
      else if py_in ''#'' ln then Some (unpack2 (split1 ''#'' ln))
      else (let parts = split_ws1 ln
            in if length parts < 2 then None else Some (Inr (parts ! 0, parts ! 1))))"

text \<open>
  The loop that reads \<open>caption.txt\<close> into \<open>cap_map\<close>; an exception ends it and
  \<open>cap_map\<close> stays as it is.
\<close>

fun read_cap_map :: "string list \<Rightarrow> caption_mapping \<Rightarrow> caption_mapping" where
  "read_cap_map [] cap_map = cap_map"
| "read_cap_map (raw # rest) cap_map =
     (let ln = strip raw
      in if ln = [] then read_cap_map rest cap_map
         else (case caption_pair ln of
                 None \<Rightarrow> read_cap_map rest cap_map
               | Some (Inl err) \<Rightarrow> cap_map
               | Some (Inr (imgname0, cap0)) \<Rightarrow>
                   (let imgname = strip imgname0; cap = strip cap0
                    in read_cap_map rest
                         (if imgname \<noteq> [] \<and> cap \<noteq> []
                          then setdefault_append imgname cap cap_map else cap_map))))"

text \<open>One round of the loop over the names listed in \<open>test.txt\<close>.\<close>

definition bnature_entry ::
  "'a env_scheme \<Rightarrow> bool \<Rightarrow> string \<Rightarrow> caption_mapping \<Rightarrow> string \<Rightarrow> caption_mapping
     \<Rightarrow> caption_mapping" where
  "bnature_entry e validate_images pictures_dir cap_map imgname captions =
     (let caps = dict_get cap_map imgname
      in if caps = [] then captions
         else (let img_path = join pictures_dir imgname
               in if \<not> validate_images \<or> os_path_exists e img_path
                  then AList.update (abspath (cwd e) img_path) caps captions
                  else captions))"

definition test_image_names :: "'a env_scheme \<Rightarrow> string \<Rightarrow> string list" where
  "test_image_names e file_path =
     (case read_lines e file_path of
        Lines ls \<Rightarrow> filter (\<lambda>ln. ln \<noteq> []) (map strip ls)
      | Failed ls \<Rightarrow> [])"

definition bnature_cap_map :: "'a env_scheme \<Rightarrow> string \<Rightarrow> caption_mapping" where
  "bnature_cap_map e captions_file =
     (if os_path_exists e captions_file
      then read_cap_map (lines_of (read_lines e captions_file)) []
      else [])"

text \<open>The branch for a file named \<open>test.txt\<close>: the captions it contributes.\<close>

definition bnature_captions :: "'a env_scheme \<Rightarrow> bool \<Rightarrow> string \<Rightarrow> caption_mapping" where
  "bnature_captions e validate_images file_path =
     (let bnature_caption_dir = dirname file_path;
          bnature_root = normpath (join bnature_caption_dir ''..'');
          pictures_dir = join bnature_root ''Pictures'';
          captions_file = join bnature_caption_dir ''caption.txt''
      in fold (bnature_entry e validate_images pictures_dir (bnature_cap_map e captions_file))
           (test_image_names e file_path) [])"

definition resized_folder :: string where
  "resized_folder =
     ''Bangla Natural Language Image to Text (BNLIT)-Preprocessing and Resizing Dataset-resized-500_375''"

definition bnlit_images_dir :: "'a env_scheme \<Rightarrow> string \<Rightarrow> string" where
  "bnlit_images_dir e file_path =
     (let bnlit_root = dirname file_path;
          images_dir = join bnlit_root resized_folder
      in if \<not> path_isdir e images_dir
         then (if path_isdir e bnlit_root then bnlit_root
               else normpath (join bnlit_root ''..''))
         else images_dir)"

text \<open>The name and the caption of a line of the annotation file before trimming.\<close>

definition annotation_pair :: "string \<Rightarrow> (py_error + string \<times> string) option" where
  "annotation_pair ln =
     (if py_in '' #'' ln then Some (unpack2 (split1 '' #'' ln))
      else if py_in ''#'' ln then Some (unpack2 (split1 ''#'' ln))
      else (let parts = split_ws1 ln
            in if length parts < 2 then None else Some (Inr (parts ! 0, parts ! 1))))"

text \<open>
  The loop over the lines of the annotation file; an exception ends it and \<open>captions\<close>
  stays as it is.
\<close>

fun bnlit_lines ::
  "'a env_scheme \<Rightarrow> bool \<Rightarrow> string \<Rightarrow> string list \<Rightarrow> caption_mapping \<Rightarrow> caption_mapping" where
  "bnlit_lines e validate_images images_dir [] captions = captions"
| "bnlit_lines e validate_images images_dir (raw # rest) captions =
     (let ln = strip raw
      in if ln = [] then bnlit_lines e validate_images images_dir rest captions
         else (case annotation_pair ln of
                 None \<Rightarrow> bnlit_lines e validate_images images_dir rest captions
               | Some (Inl err) \<Rightarrow> captions
               | Some (Inr (imgname0, cap0)) \<Rightarrow>
                   (let imgname = strip imgname0; cap = strip cap0;
                        img_path = join images_dir imgname
                    in bnlit_lines e validate_images images_dir rest
                         (if \<not> validate_images \<or> os_path_exists e img_path
                          then setdefault_append (abspath (cwd e) img_path) cap captions
                          else captions))))"

text \<open>The branch for a BNLIT test-annotation file: the captions it contributes.\<close>

definition bnlit_captions :: "'a env_scheme \<Rightarrow> bool \<Rightarrow> string \<Rightarrow> caption_mapping" where
  "bnlit_captions e validate_images file_path =
     bnlit_lines e validate_images (bnlit_images_dir e file_path)
       (lines_of (read_lines e file_path)) []"

definition is_bnature_test :: "string \<Rightarrow> bool" where
  "is_bnature_test lower_file = (lower_file = ''test.txt'')"

definition is_bnlit_annotation :: "string \<Rightarrow> bool" where
  "is_bnlit_annotation lower_file =
     ((py_in ''test-annotation'' lower_file \<and> py_in ''bnlit'' lower_file)
      \<or> startswith lower_file ''test-annotation-bangla natural language image to text'')"

definition has_skip_word :: "string \<Rightarrow> bool" where
  "has_skip_word lower_file =
     list_ex (\<lambda>skip_word. py_in skip_word lower_file)
       [''train'', ''validation'', ''val'', ''caption'']"

text \<open>
  The \<open>captions\<close> of one file when the chain of branches is left; \<open>None\<close> when the round
  ends with \<open>continue\<close>.
\<close>

definition file_captions ::
  "'a env_scheme \<Rightarrow> bool \<Rightarrow> string \<Rightarrow> string \<Rightarrow> caption_mapping option" where
  "file_captions e validate_images root file =
     (let lower_file = lower file;
          file_path = join root file
      in if is_bnature_test lower_file then Some (bnature_captions e validate_images file_path)
         else if is_bnlit_annotation lower_file
              then Some (bnlit_captions e validate_images file_path)
         else if endswith lower_file ''.txt'' \<or> endswith lower_file ''.json''
              then (if has_skip_word lower_file then None else Some [])
         else Some [])"

text \<open>One round of the loop over the files of a directory.\<close>

definition process_file ::
  "'a env_scheme \<Rightarrow> bool \<Rightarrow> string \<Rightarrow> string \<Rightarrow> caption_mapping \<Rightarrow> caption_mapping" where
  "process_file e validate_images root file all_captions =
     (case file_captions e validate_images root file of
        None \<Rightarrow> all_captions
      | Some captions \<Rightarrow>
          if captions \<noteq> [] then dict_update all_captions captions else all_captions)"

text \<open>The files of a walk in the order they are processed, each with its directory.\<close>

definition walk_files :: "(string \<times> string list \<times> string list) list \<Rightarrow> (string \<times> string) list" where
  "walk_files triples = concat (map (\<lambda>(root, dirs, files). map (Pair root) files) triples)"

text \<open>
  The call returns the collected mapping, or ends with the exception that leaves the walk.
\<close>

definition collect_all_caption_data ::
  "'a env_scheme \<Rightarrow> string \<Rightarrow> bool \<Rightarrow> py_error + caption_mapping" where
  "collect_all_caption_data e base_dir validate_images =
     (case os_walk e base_dir of
        Inl err \<Rightarrow> Inl err
      | Inr triples \<Rightarrow>
          Inr (fold (\<lambda>(root, file). process_file e validate_images root file)
                 (walk_files triples) []))"

section \<open>Properties of the entries of a mapping\<close>

text \<open>
  \<open>entries_ok Q R d\<close>: every key of \<open>d\<close> satisfies \<open>Q\<close>, every caption list of \<open>d\<close> is
  non-empty and every caption in it satisfies \<open>R\<close>.
\<close>

definition entries_ok ::
  "(string \<Rightarrow> bool) \<Rightarrow> (string \<Rightarrow> bool) \<Rightarrow> caption_mapping \<Rightarrow> bool" where
  "entries_ok Q R d = list_all (\<lambda>(k, caps). Q k \<and> caps \<noteq> [] \<and> list_all R caps) d"

section \<open>Example environments\<close>

text \<open>An environment with an empty file system.\<close>

definition no_files :: env where
  "no_files =
     \<lparr> cwd = ''/w'', scandir = (\<lambda>p. None), path_exists = (\<lambda>p. False),
       os_path_exists = (\<lambda>p. False), path_isdir = (\<lambda>p. False),
       read_lines = (\<lambda>p. Failed []),
       json_load = (\<lambda>p. None), repr = (\<lambda>c. ''?'') \<rparr>"

text \<open>
  A directory \<open>data\<close> that holds \<open>data.json\<close>, a well-formed caption file, and
  \<open>notes.txt\<close>, a well-formed delimited text file.
\<close>

definition generic_files :: env where
  "generic_files =
     no_files
       \<lparr> scandir := (\<lambda>p. if p = ''data'' then Some (Dir [] [''data.json'', ''notes.txt''])
                          else None),
         read_lines := (\<lambda>p. if p = ''data/notes.txt'' then Lines [''b.jpg   a note'']
                             else Failed []),
         json_load := (\<lambda>p. if p = ''data/data.json''
                             then Some (JArr [JObj [(''filename'', JStr ''a.jpg''),
                                                    (''caption'', JArr [JStr ''a caption''])]])
                             else None) \<rparr>"

text \<open>
  The BNLIT scenario: \<open>data/BNLIT\<close> holds \<open>Test-Annotation-BNLIT.txt\<close> and \<open>1.png\<close>;
  the folder of resized images is missing.
\<close>

definition bnlit_scenario :: env where
  "bnlit_scenario =
     no_files
       \<lparr> scandir := (\<lambda>p. if p = ''data''
                          then Some (Dir [(''BNLIT'',
                                 Some (Dir [] [''Test-Annotation-BNLIT.txt'', ''1.png'']))] [])
                          else None),
         os_path_exists := (\<lambda>p. p = ''data/BNLIT/1.png''),
         path_isdir := (\<lambda>p. p = ''data/BNLIT''),
         read_lines := (\<lambda>p. if p = ''data/BNLIT/Test-Annotation-BNLIT.txt''
                             then Lines [''1.png #a caption''] else Failed []) \<rparr>"

text \<open>
  A directory \<open>data\<close> with two BNLIT annotation files that both caption \<open>1.png\<close>,
  and a third file.
\<close>

definition two_annotations :: env where
  "two_annotations =
     no_files
       \<lparr> scandir := (\<lambda>p. if p = ''data''
                          then Some (Dir [] [''test-annotation-bnlit-a.txt'',
                                             ''test-annotation-bnlit-b.txt'', ''readme.md''])
                          else None),
         path_isdir := (\<lambda>p. p = ''data''),
         read_lines := (\<lambda>p. if p = ''data/test-annotation-bnlit-a.txt''
                             then Lines [''1.png #first'', ''1.png #also first'']
                             else if p = ''data/test-annotation-bnlit-b.txt''
                             then Lines [''1.png #second'']
                             else Failed []) \<rparr>"

text \<open>
  The BNATURE scenario: \<open>data/BNATURE/caption\<close> holds \<open>test.txt\<close> and \<open>caption.txt\<close>.
  Of the three listed images the first has a caption and is on disk, the second has no
  caption, the third has a caption and is not on disk.
\<close>

definition bnature_scenario :: env where
  "bnature_scenario =
     no_files
       \<lparr> scandir := (\<lambda>p. if p = ''data''
                          then Some (Dir [(''BNATURE'',
                                 Some (Dir [(''caption'', Some (Dir [] [''test.txt'', ''caption.txt''])),
                                            (''Pictures'', Some (Dir [] [''img1.jpg'']))] []))] [])
                          else None),
         os_path_exists := (\<lambda>p. p = ''data/BNATURE/caption/caption.txt''
                                 \<or> p = ''data/BNATURE/Pictures/img1.jpg''),
         read_lines := (\<lambda>p. if p = ''data/BNATURE/caption/test.txt''
                             then Lines [''img1.jpg'', ''img2.jpg'', ''img3.jpg'']
                             else if p = ''data/BNATURE/caption/caption.txt''
                             then Lines [''img1.jpg#a caption'', ''img3.jpg   not on disk'']
                             else Failed []) \<rparr>"

text \<open>A text file \<open>f.txt\<close> whose only line names an image by an absolute path.\<close>

definition absolute_name :: env where
  "absolute_name =
     no_files
       \<lparr> read_lines := (\<lambda>p. if p = ''f.txt'' then Lines [''/abs/a.jpg   cap'']
                             else Failed []) \<rparr>"

text \<open>
  A JSON file \<open>c.json\<close> and a text file \<open>c.txt\<close> that both caption \<open>a.jpg\<close> and
  \<open>b.jpg\<close>; of the two images only \<open>imgs/a.jpg\<close> is on disk.
\<close>

definition some_images :: env where
  "some_images =
     no_files
       \<lparr> path_exists := (\<lambda>p. p = ''imgs/a.jpg''),
         read_lines := (\<lambda>p. if p = ''c.txt'' then Lines [''a.jpg   x'', ''b.jpg   y'']
                             else Failed []),
         json_load := (\<lambda>p. if p = ''c.json''
                             then Some (JArr [JObj [(''filename'', JStr ''a.jpg''),
                                                    (''caption'', JArr [JStr '' x''])],
                                              JObj [(''filename'', JStr ''b.jpg''),
                                                    (''caption'', JStr ''y'')]])
                             else None) \<rparr>"

text \<open>A JSON file \<open>c.json\<close> whose only caption consists of two spaces.\<close>

definition blank_caption :: env where
  "blank_caption =
     no_files
       \<lparr> json_load := (\<lambda>p. if p = ''c.json''
                             then Some (JArr [JObj [(''filename'', JStr ''a.jpg''),
                                                    (''caption'', JArr [JStr ''  ''])]])
                             else None) \<rparr>"






section \<open>Strings and dictionaries\<close>

lemma dropWhile_fixed: "xs = [] \<or> \<not> P (hd xs) \<Longrightarrow> dropWhile P xs = xs"
  by (cases xs) auto

lemma strip_ends:
  "strip s = [] \<or> (\<not> isspace (hd (strip s)) \<and> \<not> isspace (last (strip s)))"
proof (cases "strip s = []")
  case True
  then show ?thesis by simp
next
  case False
  define a where "a = dropWhile isspace s"
  define b where "b = dropWhile isspace (rev a)"
  have s: "strip s = rev b" by (simp add: strip_def a_def b_def)
  with False have bne: "b \<noteq> []" by simp
  then have hb: "\<not> isspace (hd b)" unfolding b_def by (rule hd_dropWhile)
  have "rev a = takeWhile isspace (rev a) @ b" by (simp add: b_def)
  then have "last (rev a) = last b" using bne by (metis last_appendR)
  moreover have ane: "a \<noteq> []" using bne b_def by auto
  ultimately have "last b = hd a" by (simp add: last_rev)
  moreover have "\<not> isspace (hd a)" using ane unfolding a_def by (rule hd_dropWhile)
  ultimately have "\<not> isspace (last b)" by simp
  with hb bne s show ?thesis by (simp add: hd_rev last_rev)
qed

lemma strip_fixed:
  assumes "s = [] \<or> (\<not> isspace (hd s) \<and> \<not> isspace (last s))"
  shows "strip s = s"
proof -
  have 1: "dropWhile isspace s = s"
    using assms by (intro dropWhile_fixed) auto
  have 2: "dropWhile isspace (rev s) = rev s"
    using assms by (intro dropWhile_fixed) (auto simp: hd_rev)
  show ?thesis by (simp add: strip_def 1 2)
qed

lemma strip_idem: "strip (strip s) = strip s"
  by (rule strip_fixed) (rule strip_ends)

lemma set_update_subset: "set (AList.update k v al) \<subseteq> insert (k, v) (set al)"
  by (induction al) auto

lemma map_of_fold_update:
  "map_of (fold (\<lambda>(k, v). AList.update k v) other d) = map_of d ++ map_of (rev other)"
proof (induction other arbitrary: d)
  case Nil
  then show ?case by simp
next
  case (Cons x xs)
  obtain k v where x: "x = (k, v)" by (cases x)
  have "(map_of d)(k \<mapsto> v) ++ map_of (rev xs) = map_of d ++ ([k \<mapsto> v] ++ map_of (rev xs))"
    by (simp add: map_add_def fun_eq_iff split: option.splits)
  then show ?case by (simp add: Cons x update_conv' del: fun_upd_apply)
qed

lemma collect_Inr:
  "collect_all_caption_data e base_dir v = Inr result \<longleftrightarrow>
     \<not> has_nul base_dir
     \<and> result = fold (\<lambda>(root, file). process_file e v root file)
                  (walk_files (walk base_dir (scandir e base_dir))) []"
  by (auto simp: collect_all_caption_data_def os_walk_def)

section \<open>Files that are neither a BNATURE test list nor a BNLIT annotation\<close>

lemma generic_file_unchanged:
  assumes "\<not> is_bnature_test (lower file)" and "\<not> is_bnlit_annotation (lower file)"
  shows "process_file e validate_images root file all_captions = all_captions"
  using assms by (simp add: process_file_def file_captions_def Let_def)

lemma generic_files_unchanged:
  assumes "\<forall>(r, f) \<in> set fs. \<not> is_bnature_test (lower f) \<and> \<not> is_bnlit_annotation (lower f)"
  shows "fold (\<lambda>(root, file). process_file e v root file) fs d = d"
  using assms
proof (induction fs)
  case Nil
  then show ?case by simp
next
  case (Cons x xs)
  obtain r f where x: "x = (r, f)" by (cases x)
  have "process_file e v r f d = d"
    using Cons.prems by (intro generic_file_unchanged) (simp_all add: x)
  then show ?case using Cons by (simp add: x)
qed

lemma walk_of_generic_files:
  assumes "\<forall>(r, f) \<in> set (walk_files (walk base_dir (scandir e base_dir))).
             \<not> is_bnature_test (lower f) \<and> \<not> is_bnlit_annotation (lower f)"
    and "\<not> has_nul base_dir"
  shows "collect_all_caption_data e base_dir validate_images = Inr []"
  using assms by (simp add: collect_Inr generic_files_unchanged)

text \<open>
  C1. A \<open>.json\<close> or \<open>.txt\<close> file whose name has no skip word and that is neither
  \<open>test.txt\<close> nor a BNLIT annotation is handed to no parser by the collector. For the
  directory \<open>data\<close> of \<open>generic_files\<close>, whose two files are of that kind, the collected
  mapping is empty, although \<open>JSONCaptionParser.extract\<close> and \<open>TXTCaptionParser.extract\<close>
  each find an entry in their file.
\<close>

theorem generic_files_not_parsed:
  "walk_files (walk ''data'' (scandir generic_files ''data''))
     = [(''data'', ''data.json''), (''data'', ''notes.txt'')]
   \<and> endswith (lower ''data.json'') ''.json'' \<and> \<not> has_skip_word (lower ''data.json'')
   \<and> endswith (lower ''notes.txt'') ''.txt'' \<and> \<not> has_skip_word (lower ''notes.txt'')
   \<and> collect_all_caption_data generic_files ''data'' False = Inr []
   \<and> JSONCaptionParser_extract generic_files ''data/data.json'' ''data'' False
       = [(''data/a.jpg'', [''a caption ''])]
   \<and> TXTCaptionParser_extract generic_files ''data/notes.txt'' ''data'' False
       = [(''data/b.jpg'', [''a note''])]"
  by code_simp

section \<open>A base directory that cannot be listed\<close>




section \<open>The images directory of a BNLIT annotation file\<close>

text \<open>
  C8. For a BNLIT test-annotation file the images directory is the first of three
  candidates: the folder of resized images under the file's directory if that is a
  directory; else the file's directory if it is one; else the parent of the file's
  directory. The annotation lines are resolved against that directory.
\<close>

theorem bnlit_images_dir_fallback:
  assumes "\<not> is_bnature_test (lower file)" and "is_bnlit_annotation (lower file)"
  shows "file_captions e validate_images root file
           = Some (bnlit_lines e validate_images (bnlit_images_dir e (join root file))
                     (lines_of (read_lines e (join root file))) [])
         \<and> bnlit_images_dir e (join root file)
             = (if path_isdir e (join (dirname (join root file)) resized_folder)
                then join (dirname (join root file)) resized_folder
                else if path_isdir e (dirname (join root file))
                     then dirname (join root file)
                else normpath (join (dirname (join root file)) ''..''))"
  using assms
  by (simp add: file_captions_def bnlit_captions_def bnlit_images_dir_def Let_def)

lemma bnlit_file_name: "lower ''Test-Annotation-BNLIT.txt'' = ''test-annotation-bnlit.txt''"
  by code_simp

text \<open>
  The BNLIT scenario: the folder of resized images is missing and the directory of the
  annotation file exists, so the line \<open>1.png #a caption\<close> is resolved against that
  directory.
\<close>

theorem bnlit_images_dir_fallback_witness:
  "\<not> is_bnature_test (lower ''Test-Annotation-BNLIT.txt'')
   \<and> is_bnlit_annotation (lower ''Test-Annotation-BNLIT.txt'')
   \<and> bnlit_images_dir bnlit_scenario (join ''data/BNLIT'' ''Test-Annotation-BNLIT.txt'')
       = ''data/BNLIT''
   \<and> file_captions bnlit_scenario True ''data/BNLIT'' ''Test-Annotation-BNLIT.txt''
       = Some [(''/w/data/BNLIT/1.png'', [''a caption''])]"
proof -
  have 1: "\<not> is_bnature_test (lower ''Test-Annotation-BNLIT.txt'')"
    by (simp add: bnlit_file_name is_bnature_test_def)
  have 2: "is_bnlit_annotation (lower ''Test-Annotation-BNLIT.txt'')"
    unfolding bnlit_file_name by code_simp
  have 3: "bnlit_lines bnlit_scenario True ''data/BNLIT''
             (lines_of (read_lines bnlit_scenario ''data/BNLIT/Test-Annotation-BNLIT.txt'')) []
           = [(''/w/data/BNLIT/1.png'', [''a caption''])]"
    by code_simp
  have 4: "join ''data/BNLIT'' ''Test-Annotation-BNLIT.txt''
           = ''data/BNLIT/Test-Annotation-BNLIT.txt''"
    by code_simp
  have 5: "dirname ''data/BNLIT/Test-Annotation-BNLIT.txt'' = ''data/BNLIT''"
    by code_simp
  have 6: "\<not> path_isdir bnlit_scenario (join ''data/BNLIT'' resized_folder)"
    by code_simp
  have 7: "path_isdir bnlit_scenario ''data/BNLIT''"
    by code_simp
  show ?thesis
    using bnlit_images_dir_fallback [OF 1 2, of bnlit_scenario True "''data/BNLIT''"] 1 2 3 6 7
    unfolding 4 5 by simp
qed

section \<open>Merging the captions of the files\<close>

lemma map_of_rev_distinct:
  assumes "distinct (map fst xs)"
  shows "map_of (rev xs) = map_of xs"
proof (rule ext)
  fix k
  have d: "distinct (map fst (rev xs))" using assms by (simp add: rev_map [symmetric])
  show "map_of (rev xs) k = map_of xs k"
  proof (cases "map_of xs k")
    case None
    then have "k \<notin> fst ` set xs" by (simp add: map_of_eq_None_iff)
    then have "map_of (rev xs) k = None" by (simp add: map_of_eq_None_iff)
    with None show ?thesis by simp
  next
    case (Some v)
    then have "(k, v) \<in> set (rev xs)" by (auto dest: map_of_SomeD)
    then have "map_of (rev xs) k = Some v" using d by simp
    with Some show ?thesis by simp
  qed
qed

lemma map_of_dict_update:
  "distinct (map fst other) \<Longrightarrow> map_of (dict_update d other) = map_of d ++ map_of other"
  by (simp add: dict_update_def map_of_fold_update map_of_rev_distinct)

lemma distinct_setdefault_append:
  "distinct (map fst d) \<Longrightarrow> distinct (map fst (setdefault_append k c d))"
  by (simp add: setdefault_append_def distinct_update)

lemma distinct_bnature_entry:
  "distinct (map fst c) \<Longrightarrow> distinct (map fst (bnature_entry e v pics cm n c))"
  by (simp add: bnature_entry_def Let_def distinct_update)

lemma distinct_fold_bnature_entry:
  "distinct (map fst c) \<Longrightarrow> distinct (map fst (fold (bnature_entry e v pics cm) ns c))"
  by (induction ns arbitrary: c) (simp_all add: distinct_bnature_entry)

lemma distinct_bnature_captions: "distinct (map fst (bnature_captions e v fp))"
  by (simp add: bnature_captions_def Let_def distinct_fold_bnature_entry)

lemma distinct_bnlit_lines:
  "distinct (map fst c) \<Longrightarrow> distinct (map fst (bnlit_lines e v d ls c))"
proof (induction ls arbitrary: c)
  case Nil
  then show ?case by simp
next
  case (Cons raw rest)
  then show ?case
    by (auto simp: Let_def distinct_setdefault_append split: option.splits sum.splits prod.splits)
qed

lemma distinct_bnlit_captions: "distinct (map fst (bnlit_captions e v fp))"
  by (simp add: bnlit_captions_def distinct_bnlit_lines)

lemma distinct_file_captions:
  "file_captions e v root file = Some c \<Longrightarrow> distinct (map fst c)"
  by (auto simp: file_captions_def Let_def distinct_bnature_captions distinct_bnlit_captions
           split: if_splits)

lemma map_of_process_file:
  "map_of (process_file e v root file d)
     = (case file_captions e v root file of
          None \<Rightarrow> map_of d
        | Some c \<Rightarrow> map_of d ++ map_of c)"
  by (auto simp: process_file_def map_of_dict_update distinct_file_captions split: option.splits)

lemma process_files_keep:
  assumes "\<forall>(r, f) \<in> set fs. \<forall>c. file_captions e v r f = Some c \<longrightarrow> map_of c k = None"
  shows "map_of (fold (\<lambda>(root, file). process_file e v root file) fs d) k = map_of d k"
  using assms
proof (induction fs arbitrary: d)
  case Nil
  then show ?case by simp
next
  case (Cons x xs)
  obtain r f where x: "x = (r, f)" by (cases x)
  have "map_of (process_file e v r f d) k = map_of d k"
    using Cons.prems by (auto simp: x map_of_process_file map_add_def split: option.splits)
  moreover have "map_of (fold (\<lambda>(root, file). process_file e v root file) xs (process_file e v r f d)) k
      = map_of (process_file e v r f d) k"
    using Cons.prems by (intro Cons.IH) auto
  ultimately show ?case by (simp add: x)
qed


text \<open>
  C5. When two files of one walk both produce an entry for the same image path, the
  returned mapping holds for that path exactly the caption list of the file processed
  last: whatever the earlier files produced for the path is replaced.
\<close>

theorem later_file_replaces_earlier:
  assumes "collect_all_caption_data e base_dir validate_images = Inr result"
    and "walk_files (walk base_dir (scandir e base_dir)) = earlier @ (root, file) # later"
    and "file_captions e validate_images root file = Some captions"
    and "map_of captions path = Some caps"
    and "\<forall>(r, f) \<in> set later.
           \<forall>c. file_captions e validate_images r f = Some c \<longrightarrow> map_of c path = None"
  shows "map_of result path = Some caps"
proof -
  let ?step = "\<lambda>(root, file). process_file e validate_images root file"
  have "result = fold ?step later (process_file e validate_images root file (fold ?step earlier []))"
    using assms(1,2) by (simp add: collect_Inr)
  then have "map_of result path
      = map_of (process_file e validate_images root file (fold ?step earlier [])) path"
    using process_files_keep [OF assms(5)] by simp
  also have "\<dots> = Some caps"
    using assms(3,4) by (simp add: map_of_process_file)
  finally show ?thesis .
qed

theorem later_file_replaces_earlier_witness:
  "file_captions two_annotations False ''data'' ''test-annotation-bnlit-a.txt''
     = Some [(''/w/data/1.png'', [''first'', ''also first''])]
   \<and> file_captions two_annotations False ''data'' ''test-annotation-bnlit-b.txt''
       = Some [(''/w/data/1.png'', [''second''])]
   \<and> collect_all_caption_data two_annotations ''data'' False
       = Inr [(''/w/data/1.png'', [''second''])]
   \<and> map_of [(''/w/data/1.png'', [''second''])] ''/w/data/1.png'' = Some [''second'']"
proof -
  have h1: "collect_all_caption_data two_annotations ''data'' False
              = Inr [(''/w/data/1.png'', [''second''])]"
    by code_simp
  have h2: "walk_files (walk ''data'' (scandir two_annotations ''data''))
              = [(''data'', ''test-annotation-bnlit-a.txt'')]
                @ (''data'', ''test-annotation-bnlit-b.txt'') # [(''data'', ''readme.md'')]"
    by code_simp
  have h3: "file_captions two_annotations False ''data'' ''test-annotation-bnlit-b.txt''
              = Some [(''/w/data/1.png'', [''second''])]"
    by code_simp
  have h4: "map_of [(''/w/data/1.png'', [''second''])] ''/w/data/1.png'' = Some [''second'']"
    by simp
  have "file_captions two_annotations False ''data'' ''readme.md'' = Some []"
    by code_simp
  then have h5: "\<forall>(r, f) \<in> set [(''data'', ''readme.md'')].
              \<forall>c. file_captions two_annotations False r f = Some c
                   \<longrightarrow> map_of c ''/w/data/1.png'' = None"
    by simp
  have h6: "file_captions two_annotations False ''data'' ''test-annotation-bnlit-a.txt''
              = Some [(''/w/data/1.png'', [''first'', ''also first''])]"
    by code_simp
  show ?thesis
    using later_file_replaces_earlier [OF h1 h2 h3 h4 h5] h1 h3 h6 by simp
qed

section \<open>The delimiter of a line of a text file\<close>

lemma startswith_iff: "startswith s p \<longleftrightarrow> (\<exists>b. s = p @ b)"
proof
  assume "startswith s p"
  then have "s = p @ drop (length p) s"
    unfolding startswith_def by (metis append_take_drop_id)
  then show "\<exists>b. s = p @ b" ..
next
  assume "\<exists>b. s = p @ b"
  then show "startswith s p" by (auto simp: startswith_def)
qed

lemma py_in_iff: "py_in sub s \<longleftrightarrow> (\<exists>a b. s = a @ sub @ b)"
proof (induction s)
  case Nil
  then show ?case by auto
next
  case (Cons c cs)
  show ?case
  proof
    assume "py_in sub (c # cs)"
    then consider "startswith (c # cs) sub" | "py_in sub cs" by auto
    then show "\<exists>a b. c # cs = a @ sub @ b"
    proof cases
      case 1
      then obtain b where "c # cs = sub @ b" by (auto simp: startswith_iff)
      then have "c # cs = [] @ sub @ b" by simp
      then show ?thesis by blast
    next
      case 2
      then obtain a b where "cs = a @ sub @ b" using Cons.IH by auto
      then have "c # cs = (c # a) @ sub @ b" by simp
      then show ?thesis by blast
    qed
  next
    assume "\<exists>a b. c # cs = a @ sub @ b"
    then obtain a b where ab: "c # cs = a @ sub @ b" by auto
    show "py_in sub (c # cs)"
    proof (cases a)
      case Nil
      with ab have "startswith (c # cs) sub" by (auto simp: startswith_iff)
      then show ?thesis by simp
    next
      case (Cons x a')
      with ab have "cs = a' @ sub @ b" by simp
      then have "py_in sub cs" using Cons.IH by auto
      then show ?thesis by simp
    qed
  qed
qed

lemma split1_first:
  assumes "py_in sep s" and "sep \<noteq> []"
  shows "\<exists>a b. split1 sep s = [a, b] \<and> s = a @ sep @ b
           \<and> (\<forall>a' b'. s = a' @ sep @ b' \<longrightarrow> length a \<le> length a')"
  using assms
proof (induction s)
  case Nil
  then show ?case by simp
next
  case (Cons c cs)
  show ?case
  proof (cases "startswith (c # cs) sep")
    case True
    then have "c # cs = sep @ drop (length sep) (c # cs)"
      unfolding startswith_def by (metis append_take_drop_id)
    with True show ?thesis by auto
  next
    case False
    with Cons.prems have "py_in sep cs" by simp
    then obtain a b where ab: "split1 sep cs = [a, b]" "cs = a @ sep @ b"
      and first: "\<forall>a' b'. cs = a' @ sep @ b' \<longrightarrow> length a \<le> length a'"
      using Cons.IH Cons.prems(2) by blast
    have "length (c # a) \<le> length a'" if "c # cs = a' @ sep @ b'" for a' b'
    proof (cases a')
      case Nil
      with that have "startswith (c # cs) sep" by (auto simp: startswith_iff)
      with False show ?thesis by simp
    next
      case (Cons x a'')
      with that have "cs = a'' @ sep @ b'" by simp
      with first have "length a \<le> length a''" by blast
      with Cons show ?thesis by simp
    qed
    with False ab show ?thesis by auto
  qed
qed

lemma split1_delim:
  assumes "py_in sep (strip raw)" and "sep \<noteq> []"
  obtains a b where "split1 sep (strip raw) = [a, b]" and "strip raw = a @ sep @ b"
    and "\<forall>a' b'. strip raw = a' @ sep @ b' \<longrightarrow> length a \<le> length a'"
  using split1_first [OF assms] by blast


text \<open>
  C6. In \<open>TXTCaptionParser.extract\<close> the delimiter of a line is the first that occurs in
  the trimmed line among a run of three spaces, a space and a hash, and a hash; the line
  is cut at the first occurrence of that delimiter. A line whose name or caption is empty
  after trimming, and a line with none of the three delimiters, leave the mapping as it
  is; no round of the loop raises.
\<close>

theorem txt_delimiter_precedence:
  fixes e :: "'a env_scheme" and raw images_path :: string and validate_images :: bool
    and caption_mapping :: caption_mapping
  defines "line \<equiv> strip raw"
  defines "entry \<equiv> (\<lambda>a b.
             if strip a = [] \<or> strip b = [] then caption_mapping
             else if \<not> validate_images \<or> path_exists e (join images_path (strip a))
                  then setdefault_append (join images_path (strip a)) (strip b) caption_mapping
             else caption_mapping)"
  defines "first \<equiv> (\<lambda>sep a. \<forall>a' b'. line = a' @ sep @ b' \<longrightarrow> length a \<le> length a')"
  shows "(py_in ''   '' line \<longrightarrow>
            (\<exists>a b. line = a @ ''   '' @ b \<and> first ''   '' a
               \<and> txt_line e images_path validate_images raw caption_mapping = entry a b))
       \<and> (\<not> py_in ''   '' line \<and> py_in '' #'' line \<longrightarrow>
            (\<exists>a b. line = a @ '' #'' @ b \<and> first '' #'' a
               \<and> txt_line e images_path validate_images raw caption_mapping = entry a b))
       \<and> (\<not> py_in ''   '' line \<and> \<not> py_in '' #'' line \<and> py_in ''#'' line \<longrightarrow>
            (\<exists>a b. line = a @ ''#'' @ b \<and> first ''#'' a
               \<and> txt_line e images_path validate_images raw caption_mapping = entry a b))
       \<and> (\<not> py_in ''   '' line \<and> \<not> py_in '' #'' line \<and> \<not> py_in ''#'' line \<longrightarrow>
            txt_line e images_path validate_images raw caption_mapping = caption_mapping)"
proof -
  have found: "\<exists>a b. line = a @ sep @ b \<and> first sep a
                 \<and> txt_line e images_path validate_images raw caption_mapping = entry a b"
    if "py_in sep line" and "sep \<noteq> []" and "txt_parts line = Some (split1 sep line)" for sep
  proof -
    note hyps = that
    obtain a b where ab: "split1 sep (strip raw) = [a, b]" "strip raw = a @ sep @ b"
      and f: "\<forall>a' b'. strip raw = a' @ sep @ b' \<longrightarrow> length a \<le> length a'"
      using hyps(1,2) unfolding line_def by (rule split1_delim)
    have ne: "strip raw \<noteq> []" using ab(2) hyps(2) by auto
    have "txt_line e images_path validate_images raw caption_mapping = entry a b"
      using hyps(3) ab(1) ne unfolding line_def entry_def
      by (simp add: txt_line_def Let_def)
    with ab(2) f show ?thesis unfolding line_def first_def by blast
  qed
  have none: "txt_line e images_path validate_images raw caption_mapping = caption_mapping"
    if "txt_parts line = None"
    using that unfolding line_def by (simp add: txt_line_def Let_def)
  show ?thesis
    by (intro conjI impI found none) (simp_all add: txt_parts_def)
qed

theorem txt_delimiter_precedence_witness:
  "(py_in ''   '' (strip ''a.jpg   hello #world''))
   \<and> (\<exists>a b. strip ''a.jpg   hello #world'' = a @ ''   '' @ b
          \<and> (\<forall>a' b'. strip ''a.jpg   hello #world'' = a' @ ''   '' @ b' \<longrightarrow> length a \<le> length a')
          \<and> txt_line no_files ''imgs'' False ''a.jpg   hello #world'' []
              = (if strip a = [] \<or> strip b = [] then []
                 else if \<not> False \<or> path_exists no_files (join ''imgs'' (strip a))
                      then setdefault_append (join ''imgs'' (strip a)) (strip b) []
                 else []))
   \<and> txt_line no_files ''imgs'' False ''a.jpg   hello #world'' [] = [(''imgs/a.jpg'', [''hello #world''])]
   \<and> (\<not> py_in ''   '' (strip ''1.png #a caption'') \<and> py_in '' #'' (strip ''1.png #a caption''))
   \<and> (\<exists>a b. strip ''1.png #a caption'' = a @ '' #'' @ b
          \<and> (\<forall>a' b'. strip ''1.png #a caption'' = a' @ '' #'' @ b' \<longrightarrow> length a \<le> length a')
          \<and> txt_line no_files ''imgs'' False ''1.png #a caption'' []
              = (if strip a = [] \<or> strip b = [] then []
                 else if \<not> False \<or> path_exists no_files (join ''imgs'' (strip a))
                      then setdefault_append (join ''imgs'' (strip a)) (strip b) []
                 else []))
   \<and> txt_line no_files ''imgs'' False ''1.png #a caption'' [] = [(''imgs/1.png'', [''a caption''])]
   \<and> (\<not> py_in ''   '' (strip ''img1.jpg#a caption'') \<and> \<not> py_in '' #'' (strip ''img1.jpg#a caption'') \<and> py_in ''#'' (strip ''img1.jpg#a caption''))
   \<and> (\<exists>a b. strip ''img1.jpg#a caption'' = a @ ''#'' @ b
          \<and> (\<forall>a' b'. strip ''img1.jpg#a caption'' = a' @ ''#'' @ b' \<longrightarrow> length a \<le> length a')
          \<and> txt_line no_files ''imgs'' False ''img1.jpg#a caption'' []
              = (if strip a = [] \<or> strip b = [] then []
                 else if \<not> False \<or> path_exists no_files (join ''imgs'' (strip a))
                      then setdefault_append (join ''imgs'' (strip a)) (strip b) []
                 else []))
   \<and> txt_line no_files ''imgs'' False ''img1.jpg#a caption'' [] = [(''imgs/img1.jpg'', [''a caption''])]
   \<and> (\<not> py_in ''   '' (strip ''no delimiter here'') \<and> \<not> py_in '' #'' (strip ''no delimiter here'') \<and> \<not> py_in ''#'' (strip ''no delimiter here''))
   \<and> txt_line no_files ''imgs'' False ''no delimiter here'' [] = []"
proof -
  have h1: "py_in ''   '' (strip ''a.jpg   hello #world'')" by code_simp
  have h2: "\<not> py_in ''   '' (strip ''1.png #a caption'') \<and> py_in '' #'' (strip ''1.png #a caption'')" by code_simp
  have h3: "\<not> py_in ''   '' (strip ''img1.jpg#a caption'') \<and> \<not> py_in '' #'' (strip ''img1.jpg#a caption'') \<and> py_in ''#'' (strip ''img1.jpg#a caption'')" by code_simp
  have h4: "\<not> py_in ''   '' (strip ''no delimiter here'') \<and> \<not> py_in '' #'' (strip ''no delimiter here'') \<and> \<not> py_in ''#'' (strip ''no delimiter here'')" by code_simp
  have v1: "txt_line no_files ''imgs'' False ''a.jpg   hello #world'' [] = [(''imgs/a.jpg'', [''hello #world''])]" by code_simp
  have v2: "txt_line no_files ''imgs'' False ''1.png #a caption'' [] = [(''imgs/1.png'', [''a caption''])]" by code_simp
  have v3: "txt_line no_files ''imgs'' False ''img1.jpg#a caption'' [] = [(''imgs/img1.jpg'', [''a caption''])]" by code_simp
  have c1: "(\<exists>a b. strip ''a.jpg   hello #world'' = a @ ''   '' @ b
          \<and> (\<forall>a' b'. strip ''a.jpg   hello #world'' = a' @ ''   '' @ b' \<longrightarrow> length a \<le> length a')
          \<and> txt_line no_files ''imgs'' False ''a.jpg   hello #world'' []
              = (if strip a = [] \<or> strip b = [] then []
                 else if \<not> False \<or> path_exists no_files (join ''imgs'' (strip a))
                      then setdefault_append (join ''imgs'' (strip a)) (strip b) []
                 else []))"
    using txt_delimiter_precedence [of "''a.jpg   hello #world''" no_files "''imgs''" False "[]"] h1 by blast
  have c2: "(\<exists>a b. strip ''1.png #a caption'' = a @ '' #'' @ b
          \<and> (\<forall>a' b'. strip ''1.png #a caption'' = a' @ '' #'' @ b' \<longrightarrow> length a \<le> length a')
          \<and> txt_line no_files ''imgs'' False ''1.png #a caption'' []
              = (if strip a = [] \<or> strip b = [] then []
                 else if \<not> False \<or> path_exists no_files (join ''imgs'' (strip a))
                      then setdefault_append (join ''imgs'' (strip a)) (strip b) []
                 else []))"
    using txt_delimiter_precedence [of "''1.png #a caption''" no_files "''imgs''" False "[]"] h2 by blast
  have c3: "(\<exists>a b. strip ''img1.jpg#a caption'' = a @ ''#'' @ b
          \<and> (\<forall>a' b'. strip ''img1.jpg#a caption'' = a' @ ''#'' @ b' \<longrightarrow> length a \<le> length a')
          \<and> txt_line no_files ''imgs'' False ''img1.jpg#a caption'' []
              = (if strip a = [] \<or> strip b = [] then []
                 else if \<not> False \<or> path_exists no_files (join ''imgs'' (strip a))
                      then setdefault_append (join ''imgs'' (strip a)) (strip b) []
                 else []))"
    using txt_delimiter_precedence [of "''img1.jpg#a caption''" no_files "''imgs''" False "[]"] h3 by blast
  have c4: "txt_line no_files ''imgs'' False ''no delimiter here'' [] = []"
    using txt_delimiter_precedence [of "''no delimiter here''" no_files "''imgs''" False "[]"] h4 by blast
  show ?thesis
    using h1 h2 h3 h4 v1 v2 v3 c1 c2 c3 c4 by blast
qed

section \<open>What holds of every entry\<close>

lemma entries_ok_iff:
  "entries_ok Q R d \<longleftrightarrow> (\<forall>(k, caps) \<in> set d. Q k \<and> caps \<noteq> [] \<and> (\<forall>c \<in> set caps. R c))"
  by (auto simp: entries_ok_def list_all_iff)

lemma entries_ok_Nil: "entries_ok Q R []"
  by (simp add: entries_ok_def)

lemma entries_ok_update:
  assumes "entries_ok Q R d" and "Q k" and "v \<noteq> []" and "\<forall>c \<in> set v. R c"
  shows "entries_ok Q R (AList.update k v d)"
  using assms set_update_subset [of k v d] unfolding entries_ok_iff by blast

lemma dict_get_cases: "dict_get d k = [] \<or> (k, dict_get d k) \<in> set d"
  by (auto simp: dict_get_def split: option.splits dest: map_of_SomeD)

lemma entries_ok_dict_get: "entries_ok Q R d \<Longrightarrow> \<forall>c \<in> set (dict_get d k). R c"
  using dict_get_cases [of d k] unfolding entries_ok_iff by auto

lemma entries_ok_setdefault_append:
  assumes "entries_ok Q R d" and "Q k" and "R c"
  shows "entries_ok Q R (setdefault_append k c d)"
  unfolding setdefault_append_def
  using assms entries_ok_dict_get [OF assms(1), of k]
  by (intro entries_ok_update) auto

lemma entries_ok_dict_update:
  assumes "entries_ok Q R d" and "entries_ok Q R other"
  shows "entries_ok Q R (dict_update d other)"
proof -
  have "entries_ok Q R (fold (\<lambda>(k, v). AList.update k v) xs d)"
    if "entries_ok Q R xs" and "entries_ok Q R d" for xs d
    using that
  proof (induction xs arbitrary: d)
    case Nil
    then show ?case by simp
  next
    case (Cons x xs)
    obtain k v where x: "x = (k, v)" by (cases x)
    have "entries_ok Q R (AList.update k v d)"
      using Cons.prems by (intro entries_ok_update) (auto simp: x entries_ok_iff)
    moreover have "entries_ok Q R xs"
      using Cons.prems(1) by (simp add: entries_ok_def)
    ultimately show ?case using Cons.IH by (simp add: x)
  qed
  with assms show ?thesis by (simp add: dict_update_def)
qed

lemma formatted_shape: "\<forall>c \<in> set (formatted e cr). \<exists>t. c = strip t @ '' ''"
  by (auto simp: formatted_def Let_def)

lemma entries_ok_json_items:
  assumes "entries_ok Q R m"
    and "\<And>n. \<not> v \<or> path_exists e (join ip n) \<Longrightarrow> Q (join ip n)"
    and "\<And>t. R (strip t @ '' '')"
  shows "entries_ok Q R (json_items e ip v items m)"
  using assms(1)
proof (induction items arbitrary: m)
  case Nil
  then show ?case by simp
next
  case (Cons item items)
  have upd: "entries_ok Q R (AList.update (join ip n) (formatted e cr) m)"
    if "\<not> v \<or> path_exists e (join ip n)" and "formatted e cr \<noteq> []" for n cr
    using Cons.prems that assms(2,3) formatted_shape [of e cr]
    by (intro entries_ok_update) auto
  show ?case
    using Cons.prems Cons.IH upd
    by (auto simp: Let_def strip_method_def split: json.splits option.splits sum.splits)
qed

lemma entries_ok_txt_line:
  assumes "entries_ok Q R m"
    and "\<And>n. \<not> v \<or> path_exists e (join ip n) \<Longrightarrow> n \<noteq> [] \<Longrightarrow> Q (join ip n)"
    and "\<And>t. strip t \<noteq> [] \<Longrightarrow> R (strip t)"
  shows "entries_ok Q R (txt_line e ip v raw m)"
  using assms
  by (auto simp: txt_line_def Let_def intro!: entries_ok_setdefault_append split: option.splits)

lemma entries_ok_txt_lines:
  assumes "entries_ok Q R m"
    and "\<And>n. \<not> v \<or> path_exists e (join ip n) \<Longrightarrow> n \<noteq> [] \<Longrightarrow> Q (join ip n)"
    and "\<And>t. strip t \<noteq> [] \<Longrightarrow> R (strip t)"
  shows "entries_ok Q R (fold (txt_line e ip v) ls m)"
  using assms(1)
proof (induction ls arbitrary: m)
  case Nil
  then show ?case by simp
next
  case (Cons raw ls)
  have "entries_ok Q R (txt_line e ip v raw m)"
    using Cons.prems assms(2,3) by (rule entries_ok_txt_line)
  then show ?case using Cons.IH by simp
qed

lemma entries_ok_read_cap_map:
  assumes "entries_ok Q R m" and "\<And>n. Q n" and "\<And>t. strip t \<noteq> [] \<Longrightarrow> R (strip t)"
  shows "entries_ok Q R (read_cap_map ls m)"
  using assms(1)
proof (induction ls arbitrary: m)
  case Nil
  then show ?case by simp
next
  case (Cons raw ls)
  have "entries_ok Q R (setdefault_append n (strip t) m)" if "strip t \<noteq> []" for n t
    by (rule entries_ok_setdefault_append [OF Cons.prems assms(2) assms(3) [OF that]])
  then show ?case
    using Cons.prems Cons.IH
    by (auto simp: Let_def split: option.splits sum.splits prod.splits)
qed

lemma entries_ok_bnature_cap_map:
  assumes "\<And>n. Q n" and "\<And>t. strip t \<noteq> [] \<Longrightarrow> R (strip t)"
  shows "entries_ok Q R (bnature_cap_map e captions_file)"
  using assms by (simp add: bnature_cap_map_def entries_ok_read_cap_map entries_ok_Nil)

lemma entries_ok_bnature_entries:
  assumes "entries_ok Q R c"
    and "\<And>p. \<not> v \<or> os_path_exists e p \<Longrightarrow> Q (abspath (cwd e) p)"
    and "\<forall>n. \<forall>x \<in> set (dict_get cm n). R x"
  shows "entries_ok Q R (fold (bnature_entry e v pics cm) ns c)"
  using assms(1)
proof (induction ns arbitrary: c)
  case Nil
  then show ?case by simp
next
  case (Cons n ns)
  have "entries_ok Q R (bnature_entry e v pics cm n c)"
    using Cons.prems assms(2,3)
    by (auto simp: bnature_entry_def Let_def intro!: entries_ok_update)
  then show ?case using Cons.IH by simp
qed

lemma entries_ok_bnature_captions:
  assumes "\<And>p. \<not> v \<or> os_path_exists e p \<Longrightarrow> Q (abspath (cwd e) p)"
    and "\<And>t. strip t \<noteq> [] \<Longrightarrow> R (strip t)"
  shows "entries_ok Q R (bnature_captions e v fp)"
proof -
  have "entries_ok (\<lambda>n. True) R (bnature_cap_map e cf)" for cf
    using assms(2) by (intro entries_ok_bnature_cap_map) auto
  then have "\<forall>n. \<forall>x \<in> set (dict_get (bnature_cap_map e cf) n). R x" for cf
    using entries_ok_dict_get by blast
  then show ?thesis
    unfolding bnature_captions_def Let_def
    by (intro entries_ok_bnature_entries entries_ok_Nil assms(1))
qed

lemma entries_ok_bnlit_lines:
  assumes "entries_ok Q R c"
    and "\<And>p. \<not> v \<or> os_path_exists e p \<Longrightarrow> Q (abspath (cwd e) p)"
    and "\<And>t. R (strip t)"
  shows "entries_ok Q R (bnlit_lines e v d ls c)"
  using assms(1)
proof (induction ls arbitrary: c)
  case Nil
  then show ?case by simp
next
  case (Cons raw ls)
  have "entries_ok Q R (setdefault_append (abspath (cwd e) p) (strip t) c)"
    if "\<not> v \<or> os_path_exists e p" for p t
    using Cons.prems assms(2,3) that by (intro entries_ok_setdefault_append) auto
  then show ?case
    using Cons.prems Cons.IH
    by (auto simp: Let_def split: option.splits sum.splits prod.splits)
qed

lemma entries_ok_file_captions:
  assumes "file_captions e v root file = Some c"
    and "\<And>p. \<not> v \<or> os_path_exists e p \<Longrightarrow> Q (abspath (cwd e) p)"
    and "\<And>t. R (strip t)"
  shows "entries_ok Q R c"
  using assms
  by (auto simp: file_captions_def Let_def bnlit_captions_def entries_ok_Nil
           intro!: entries_ok_bnature_captions entries_ok_bnlit_lines split: if_splits)

lemma entries_ok_process_file:
  assumes "entries_ok Q R d"
    and "\<And>p. \<not> v \<or> os_path_exists e p \<Longrightarrow> Q (abspath (cwd e) p)"
    and "\<And>t. R (strip t)"
  shows "entries_ok Q R (process_file e v root file d)"
  using assms entries_ok_file_captions [of e v root "file" _ Q R]
  by (auto simp: process_file_def intro!: entries_ok_dict_update split: option.splits)

lemma entries_ok_collect:
  assumes "collect_all_caption_data e base_dir v = Inr result"
    and "\<And>p. \<not> v \<or> os_path_exists e p \<Longrightarrow> Q (abspath (cwd e) p)"
    and "\<And>t. R (strip t)"
  shows "entries_ok Q R result"
proof -
  have "entries_ok Q R (fold (\<lambda>(root, file). process_file e v root file) fs d)"
    if "entries_ok Q R d" for fs d
    using that
  proof (induction fs arbitrary: d)
    case Nil
    then show ?case by simp
  next
    case (Cons x xs)
    obtain r f where x: "x = (r, f)" by (cases x)
    have "entries_ok Q R (process_file e v r f d)"
      using Cons.prems assms(2,3) by (rule entries_ok_process_file)
    then show ?case using Cons.IH by (simp add: x)
  qed
  with assms(1) show ?thesis
    by (auto simp: collect_Inr entries_ok_Nil)
qed

lemma entries_ok_JSON_extract:
  assumes "\<And>n. \<not> v \<or> path_exists e (join ip n) \<Longrightarrow> Q (join ip n)"
    and "\<And>t. R (strip t @ '' '')"
  shows "entries_ok Q R (JSONCaptionParser_extract e fp ip v)"
  using assms
  by (auto simp: JSONCaptionParser_extract_def entries_ok_Nil intro!: entries_ok_json_items
           split: option.splits json.splits)

lemma entries_ok_TXT_extract:
  assumes "\<And>n. \<not> v \<or> path_exists e (join ip n) \<Longrightarrow> n \<noteq> [] \<Longrightarrow> Q (join ip n)"
    and "\<And>t. strip t \<noteq> [] \<Longrightarrow> R (strip t)"
  shows "entries_ok Q R (TXTCaptionParser_extract e fp ip v)"
  unfolding TXTCaptionParser_extract_def
  using entries_ok_Nil assms by (rule entries_ok_txt_lines)

section \<open>Absolute keys\<close>

lemma isabs_iff: "isabs p \<longleftrightarrow> (\<exists>q. p = CHR ''/'' # q)"
  by (cases p) (auto simp: isabs_def startswith_def)

lemma isabs_join: "isabs (join a b) \<longleftrightarrow> isabs a \<or> isabs b"
proof (cases "isabs b")
  case True
  then show ?thesis by (simp add: join_def isabs_def)
next
  case False
  then have j: "join a b = (if a = [] \<or> endswith a ''/'' then a @ b else a @ ''/'' @ b)"
    by (simp add: join_def isabs_def)
  show ?thesis
  proof (cases a)
    case Nil
    with False j show ?thesis by (simp add: isabs_def startswith_def)
  next
    case (Cons x xs)
    then have "isabs (join a b) = isabs a"
      unfolding j by (simp add: isabs_def startswith_def)
    with False show ?thesis by simp
  qed
qed

lemma replicate_pos_Cons: "0 < n \<Longrightarrow> replicate n x @ ys = x # (replicate (n - 1) x @ ys)"
  by (cases n) simp_all

lemma isabs_normpath:
  assumes "isabs p"
  shows "isabs (normpath p)"
proof -
  from assms have ne: "p \<noteq> []" and st: "startswith p ''/''"
    by (auto simp: isabs_def startswith_def)
  define slashes :: nat
    where "slashes = (if startswith p ''//'' \<and> \<not> startswith p ''///'' then 2 else 1)"
  define rest where "rest = join_sep (foldl (norm_step True) [] (split_sep p))"
  have pos: "0 < slashes" by (simp add: slashes_def)
  have "normpath p = replicate slashes CHR ''/'' @ rest"
    using ne st pos by (simp add: normpath_def Let_def slashes_def rest_def)
  then have "normpath p = CHR ''/'' # (replicate (slashes - 1) CHR ''/'' @ rest)"
    using replicate_pos_Cons [OF pos] by simp
  then show ?thesis by (simp add: isabs_iff)
qed

lemma isabs_abspath: "isabs c \<Longrightarrow> isabs (abspath c p)"
  by (auto simp: abspath_def isabs_join intro!: isabs_normpath)

text \<open>
  C10, amended. When the working directory is absolute, every key of the mapping
  returned by \<open>collect_all_caption_data\<close> is an absolute path, a result of
  \<open>os.path.abspath\<close>. A key returned by \<open>JSONCaptionParser.extract\<close> or
  \<open>TXTCaptionParser.extract\<close> is \<open>join(images_path, name)\<close> for some name, and it is
  absolute exactly when \<open>images_path\<close> is absolute or the name is.
\<close>

theorem collected_keys_absolute:
  "(isabs (cwd e) \<longrightarrow> collect_all_caption_data e base_dir validate_images = Inr result \<longrightarrow>
      (\<forall>(k, caps) \<in> set result. isabs k \<and> (\<exists>p. k = abspath (cwd e) p)))
   \<and> (\<forall>(k, caps) \<in> set (JSONCaptionParser_extract e file_path images_path validate_images).
         \<exists>name. k = join images_path name \<and> (isabs k \<longleftrightarrow> isabs images_path \<or> isabs name))
   \<and> (\<forall>(k, caps) \<in> set (TXTCaptionParser_extract e file_path images_path validate_images).
         \<exists>name. k = join images_path name \<and> (isabs k \<longleftrightarrow> isabs images_path \<or> isabs name))"
proof (intro conjI impI)
  assume "isabs (cwd e)" and "collect_all_caption_data e base_dir validate_images = Inr result"
  then have "entries_ok (\<lambda>k. isabs k \<and> (\<exists>p. k = abspath (cwd e) p)) (\<lambda>c. True) result"
    by (rule_tac entries_ok_collect) (auto simp: isabs_abspath)
  then show "\<forall>(k, caps) \<in> set result. isabs k \<and> (\<exists>p. k = abspath (cwd e) p)"
    by (auto simp: entries_ok_iff)
next
  let ?Q = "\<lambda>k. \<exists>name. k = join images_path name \<and> (isabs k \<longleftrightarrow> isabs images_path \<or> isabs name)"
  have "entries_ok ?Q (\<lambda>c. True) (JSONCaptionParser_extract e file_path images_path validate_images)"
    by (rule entries_ok_JSON_extract) (auto simp: isabs_join)
  then show "\<forall>(k, caps) \<in> set (JSONCaptionParser_extract e file_path images_path validate_images). ?Q k"
    by (auto simp: entries_ok_iff)
  have "entries_ok ?Q (\<lambda>c. True) (TXTCaptionParser_extract e file_path images_path validate_images)"
    by (rule entries_ok_TXT_extract) (auto simp: isabs_join)
  then show "\<forall>(k, caps) \<in> set (TXTCaptionParser_extract e file_path images_path validate_images). ?Q k"
    by (auto simp: entries_ok_iff)
qed

text \<open>
  C10 as stated fails: with the relative \<open>images_path\<close> \<open>imgs\<close> the text parser returns
  an absolute key for a line that names its image by an absolute path.
\<close>

theorem absolute_name_relative_images_path:
  "TXTCaptionParser_extract absolute_name ''f.txt'' ''imgs'' False
     = [(''/abs/a.jpg'', [''cap''])]
   \<and> isabs ''/abs/a.jpg'' \<and> \<not> isabs ''imgs''"
  by code_simp

theorem collected_keys_absolute_witness:
  "isabs (cwd bnlit_scenario)
   \<and> collect_all_caption_data bnlit_scenario ''data'' True
       = Inr [(''/w/data/BNLIT/1.png'', [''a caption''])]
   \<and> isabs ''/w/data/BNLIT/1.png''
   \<and> (\<exists>p. ''/w/data/BNLIT/1.png'' = abspath (cwd bnlit_scenario) p)
   \<and> JSONCaptionParser_extract generic_files ''data/data.json'' ''data'' False
       = [(''data/a.jpg'', [''a caption ''])]
   \<and> (\<exists>name. ''data/a.jpg'' = join ''data'' name
         \<and> (isabs ''data/a.jpg'' \<longleftrightarrow> isabs ''data'' \<or> isabs name))
   \<and> TXTCaptionParser_extract absolute_name ''f.txt'' ''imgs'' False
       = [(''/abs/a.jpg'', [''cap''])]
   \<and> (\<exists>name. ''/abs/a.jpg'' = join ''imgs'' name
         \<and> (isabs ''/abs/a.jpg'' \<longleftrightarrow> isabs ''imgs'' \<or> isabs name))"
proof -
  have h1: "isabs (cwd bnlit_scenario)"
    by code_simp
  have h2: "collect_all_caption_data bnlit_scenario ''data'' True
              = Inr [(''/w/data/BNLIT/1.png'', [''a caption''])]"
    by code_simp
  have h3: "JSONCaptionParser_extract generic_files ''data/data.json'' ''data'' False
              = [(''data/a.jpg'', [''a caption ''])]"
    by code_simp
  have h4: "TXTCaptionParser_extract absolute_name ''f.txt'' ''imgs'' False
              = [(''/abs/a.jpg'', [''cap''])]"
    by code_simp
  have c1: "isabs ''/w/data/BNLIT/1.png''
            \<and> (\<exists>p. ''/w/data/BNLIT/1.png'' = abspath (cwd bnlit_scenario) p)"
    using collected_keys_absolute
            [of bnlit_scenario "''data''" True "[(''/w/data/BNLIT/1.png'', [''a caption''])]"]
          h1 h2
    by auto
  have c2: "\<exists>name. ''data/a.jpg'' = join ''data'' name
              \<and> (isabs ''data/a.jpg'' \<longleftrightarrow> isabs ''data'' \<or> isabs name)"
    using collected_keys_absolute
            [where e = generic_files and file_path = "''data/data.json''"
               and images_path = "''data''" and validate_images = False]
    unfolding h3 by auto
  have c3: "\<exists>name. ''/abs/a.jpg'' = join ''imgs'' name
              \<and> (isabs ''/abs/a.jpg'' \<longleftrightarrow> isabs ''imgs'' \<or> isabs name)"
    using collected_keys_absolute
            [where e = absolute_name and file_path = "''f.txt''"
               and images_path = "''imgs''" and validate_images = False]
    unfolding h4 by auto
  show ?thesis
    using h1 h2 h3 h4 c1 c2 c3 by blast
qed

section \<open>The shape of the captions\<close>

text \<open>
  C2, amended. Every caption list in a mapping returned by \<open>JSONCaptionParser.extract\<close>,
  \<open>TXTCaptionParser.extract\<close> or \<open>collect_all_caption_data\<close> is non-empty. A caption from
  JSON is a trimmed string, possibly empty, followed by exactly one added space; a caption
  from a text file and a caption from a BNATURE test list is a non-empty trimmed string;
  every caption of the collected mapping is trimmed.
\<close>

theorem captions_nonempty_trimmed:
  "(\<forall>(k, caps) \<in> set (JSONCaptionParser_extract e file_path images_path validate_images).
      caps \<noteq> [] \<and> (\<forall>c \<in> set caps. \<exists>t. c = t @ '' '' \<and> strip t = t))
   \<and> (\<forall>(k, caps) \<in> set (TXTCaptionParser_extract e file_path images_path validate_images).
        caps \<noteq> [] \<and> (\<forall>c \<in> set caps. c \<noteq> [] \<and> strip c = c))
   \<and> (\<forall>(k, caps) \<in> set (bnature_captions e validate_images file_path).
        caps \<noteq> [] \<and> (\<forall>c \<in> set caps. c \<noteq> [] \<and> strip c = c))
   \<and> (collect_all_caption_data e base_dir validate_images = Inr result \<longrightarrow>
        (\<forall>(k, caps) \<in> set result. caps \<noteq> [] \<and> (\<forall>c \<in> set caps. strip c = c)))"
proof (intro conjI impI)
  have "entries_ok (\<lambda>k. True) (\<lambda>c. \<exists>t. c = t @ '' '' \<and> strip t = t)
          (JSONCaptionParser_extract e file_path images_path validate_images)"
    by (rule entries_ok_JSON_extract) (auto simp: strip_idem)
  then show "\<forall>(k, caps) \<in> set (JSONCaptionParser_extract e file_path images_path validate_images).
      caps \<noteq> [] \<and> (\<forall>c \<in> set caps. \<exists>t. c = t @ '' '' \<and> strip t = t)"
    by (auto simp: entries_ok_iff)
  have "entries_ok (\<lambda>k. True) (\<lambda>c. c \<noteq> [] \<and> strip c = c)
          (TXTCaptionParser_extract e file_path images_path validate_images)"
    by (rule entries_ok_TXT_extract) (auto simp: strip_idem)
  then show "\<forall>(k, caps) \<in> set (TXTCaptionParser_extract e file_path images_path validate_images).
        caps \<noteq> [] \<and> (\<forall>c \<in> set caps. c \<noteq> [] \<and> strip c = c)"
    by (auto simp: entries_ok_iff)
  have "entries_ok (\<lambda>k. True) (\<lambda>c. c \<noteq> [] \<and> strip c = c)
          (bnature_captions e validate_images file_path)"
    by (rule entries_ok_bnature_captions) (auto simp: strip_idem)
  then show "\<forall>(k, caps) \<in> set (bnature_captions e validate_images file_path).
        caps \<noteq> [] \<and> (\<forall>c \<in> set caps. c \<noteq> [] \<and> strip c = c)"
    by (auto simp: entries_ok_iff)
next
  assume "collect_all_caption_data e base_dir validate_images = Inr result"
  then have "entries_ok (\<lambda>k. True) (\<lambda>c. strip c = c) result"
    by (rule entries_ok_collect) (auto simp: strip_idem)
  then show "\<forall>(k, caps) \<in> set result. caps \<noteq> [] \<and> (\<forall>c \<in> set caps. strip c = c)"
    by (auto simp: entries_ok_iff)
qed

text \<open>
  C2 as stated fails: a JSON caption of two spaces is truthy, so it is kept, and after
  trimming and the added space the caption in the mapping is a single space: the
  trimmed string before the added space is empty.
\<close>

theorem blank_json_caption_kept:
  "JSONCaptionParser_extract blank_caption ''c.json'' ''imgs'' False
     = [(''imgs/a.jpg'', ['' ''])]
   \<and> \<not> (\<exists>t. '' '' = t @ '' '' \<and> t \<noteq> [])"
proof -
  have "JSONCaptionParser_extract blank_caption ''c.json'' ''imgs'' False
     = [(''imgs/a.jpg'', ['' ''])]"
    by code_simp
  then show ?thesis by simp
qed

theorem captions_nonempty_trimmed_witness:
  "JSONCaptionParser_extract some_images ''c.json'' ''imgs'' False
     = [(''imgs/a.jpg'', [''x '']), (''imgs/b.jpg'', [''y ''])]
   \<and> (\<exists>t. ''x '' = t @ '' '' \<and> strip t = t)
   \<and> TXTCaptionParser_extract some_images ''c.txt'' ''imgs'' False
       = [(''imgs/a.jpg'', [''x'']), (''imgs/b.jpg'', [''y''])]
   \<and> strip ''x'' = ''x''
   \<and> bnature_captions bnature_scenario False ''data/BNATURE/caption/test.txt''
       = [(''/w/data/BNATURE/Pictures/img1.jpg'', [''a caption'']),
          (''/w/data/BNATURE/Pictures/img3.jpg'', [''not on disk''])]
   \<and> strip ''not on disk'' = ''not on disk''
   \<and> collect_all_caption_data bnlit_scenario ''data'' True
       = Inr [(''/w/data/BNLIT/1.png'', [''a caption''])]
   \<and> strip ''a caption'' = ''a caption''"
proof -
  note inst1 = captions_nonempty_trimmed
    [where e = some_images and file_path = "''c.json''" and images_path = "''imgs''"
       and validate_images = False]
  note inst2 = captions_nonempty_trimmed
    [where e = some_images and file_path = "''c.txt''" and images_path = "''imgs''"
       and validate_images = False]
  note inst3 = captions_nonempty_trimmed
    [where e = bnature_scenario and file_path = "''data/BNATURE/caption/test.txt''"
       and validate_images = False]
  note inst4 = captions_nonempty_trimmed
    [where e = bnlit_scenario and base_dir = "''data''" and validate_images = True
       and result = "[(''/w/data/BNLIT/1.png'', [''a caption''])]"]
  have j0: "JSONCaptionParser_extract some_images ''c.json'' ''imgs'' False
              = [(''imgs/a.jpg'', [''x '']), (''imgs/b.jpg'', [''y ''])]"
    by code_simp
  have t0: "TXTCaptionParser_extract some_images ''c.txt'' ''imgs'' False
              = [(''imgs/a.jpg'', [''x'']), (''imgs/b.jpg'', [''y''])]"
    by code_simp
  have b0: "bnature_captions bnature_scenario False ''data/BNATURE/caption/test.txt''
       = [(''/w/data/BNATURE/Pictures/img1.jpg'', [''a caption'']),
          (''/w/data/BNATURE/Pictures/img3.jpg'', [''not on disk''])]"
    by code_simp
  have c0: "collect_all_caption_data bnlit_scenario ''data'' True
       = Inr [(''/w/data/BNLIT/1.png'', [''a caption''])]"
    by code_simp
  have a: "\<exists>t. ''x '' = t @ '' '' \<and> strip t = t"
    using inst1 unfolding j0 by simp
  have b: "strip ''x'' = ''x''"
    using inst2 unfolding t0 by simp
  have c: "strip ''not on disk'' = ''not on disk''"
    using inst3 unfolding b0 by simp
  have d: "strip ''a caption'' = ''a caption''"
    using inst4 c0 by simp
  show ?thesis
    using j0 t0 b0 c0 a b c d by blast
qed

section \<open>The entry of an element of a JSON file\<close>







section \<open>The BNATURE test list\<close>
















section \<open>Validation of the image paths\<close>


















end
